theory Spec2Isabelle
  imports Complex_Main
begin

section \<open>The streaming client of raspberry\_camera.py\<close>

text \<open>
  The program is one function, \<^verbatim>\<open>main\<close>: it opens the camera, then runs a
  \<^verbatim>\<open>while True\<close> loop that polls the server's status, and captures and uploads
  a frame when this camera is the active one. The model threads the loop's local
  variables through as a record, takes the answers of the outside world (clock, HTTP
  server, camera, sleep) as inputs, one record per iteration, and returns the events the
  iteration causes, the local variables afterwards and the exception that is
  propagating, if any.

  Python floats (times and intervals) are modelled as exact rationals: \<open>0.5\<close> is
  \<open>1/2\<close>, \<open>0.1\<close> is \<open>1/10\<close>. \<^verbatim>\<open>time.time()\<close>, the logger and
  \<^verbatim>\<open>picam.stop()\<close> are taken to return normally; every other outside call may
  raise.
\<close>

subsection \<open>Exceptions\<close>

text \<open>
  The exception classes the handlers of \<^verbatim>\<open>main\<close> tell apart.
  \<open>KeyboardInterrupt\<close> and \<open>SystemExit\<close> derive from \<^verbatim>\<open>BaseException\<close> only;
  \<open>Timeout\<close>, \<open>ConnectionError\<close> and \<open>InvalidJSON\<close> (the
  \<^verbatim>\<open>requests.exceptions.JSONDecodeError\<close> of \<^verbatim>\<open>response.json()\<close>) derive from
  \<^verbatim>\<open>requests.exceptions.RequestException\<close>; the others are plain
  \<^verbatim>\<open>Exception\<close>s.
\<close>

datatype exn =
    KeyboardInterrupt
  | SystemExit
  | Timeout
  | ConnectionError
  | InvalidJSON
  | ValueError
  | TypeError
  | KeyError
  | ZeroDivisionError
  | RuntimeError

fun is_RequestException :: "exn \<Rightarrow> bool" where
  "is_RequestException Timeout = True"
| "is_RequestException ConnectionError = True"
| "is_RequestException InvalidJSON = True"
| "is_RequestException _ = False"

fun is_Exception :: "exn \<Rightarrow> bool" where
  "is_Exception KeyboardInterrupt = False"
| "is_Exception SystemExit = False"
| "is_Exception _ = True"

subsection \<open>JSON values and the Python operations on them\<close>

text \<open>
  What \<^verbatim>\<open>response.json()\<close> returns. An object is the list of its items; its keys
  are distinct, as those of a Python dict are.
\<close>

datatype json =
    JNull
  | JBool bool
  | JNum rat
  | JStr string
  | JArr "json list"
  | JObj "(string \<times> json) list"

fun starts_with :: "string \<Rightarrow> string \<Rightarrow> bool" where
  "starts_with s [] = True"
| "starts_with [] (p # ps) = False"
| "starts_with (c # cs) (p # ps) = (c = p \<and> starts_with cs ps)"

fun str_contains :: "string \<Rightarrow> string \<Rightarrow> bool" where
  "str_contains [] p = (p = [])"
| "str_contains (c # cs) p = (starts_with (c # cs) p \<or> str_contains cs p)"

text \<open>
  \<^verbatim>\<open>key in container\<close> for a string key: key lookup in a dict, element lookup in
  a list, substring test in a string, \<^verbatim>\<open>TypeError\<close> for a value that is not iterable.
\<close>

fun py_in :: "string \<Rightarrow> json \<Rightarrow> exn + bool" where
  "py_in k (JObj kvs) = Inr (k \<in> set (map fst kvs))"
| "py_in k (JArr xs) = Inr (JStr k \<in> set xs)"
| "py_in k (JStr s) = Inr (str_contains s k)"
| "py_in k _ = Inl TypeError"

text \<open>
  \<^verbatim>\<open>container[key]\<close> for a string key: only a dict can be subscripted by a string.
\<close>

fun py_getitem :: "json \<Rightarrow> string \<Rightarrow> exn + json" where
  "py_getitem (JObj kvs) k = (case map_of kvs k of None \<Rightarrow> Inl KeyError | Some v \<Rightarrow> Inr v)"
| "py_getitem _ k = Inl TypeError"

text \<open>\<^verbatim>\<open>value == s\<close> for a string \<open>s\<close>: only an equal string is equal to it.\<close>

fun py_eq_str :: "json \<Rightarrow> string \<Rightarrow> bool" where
  "py_eq_str (JStr t) s = (t = s)"
| "py_eq_str _ s = False"

text \<open>The truth value of a JSON value, as \<^verbatim>\<open>not value\<close> tests it.\<close>

fun py_truthy :: "json \<Rightarrow> bool" where
  "py_truthy JNull = False"
| "py_truthy (JBool b) = b"
| "py_truthy (JNum n) = (n \<noteq> 0)"
| "py_truthy (JStr s) = (s \<noteq> [])"
| "py_truthy (JArr xs) = (xs \<noteq> [])"
| "py_truthy (JObj kvs) = (kvs \<noteq> [])"

subsection \<open>The outside world\<close>

text \<open>
  An HTTP call raises, or returns a response with a status code and a body;
  \<^verbatim>\<open>response.json()\<close> on that body raises or returns a JSON value.
\<close>

datatype http_outcome =
    Raised exn
  | Response int "exn + json"

datatype level = INFO | WARNING | ERROR

datatype msg =
    MsgServerUrl
  | MsgSettings
  | MsgCameraId
  | MsgCameraReady
  | MsgStreamStart
  | MsgActivated
  | MsgDeactivated
  | MsgStatusError
  | MsgServerDeactivated
  | MsgFrameOk int rat
  | MsgFrameFailed int
  | MsgConnError
  | MsgInterrupted
  | MsgError
  | MsgExit

datatype event =
    Log level msg
  | Sleep rat
  | HttpGet
  | HttpPost
  | CaptureFrame
  | EncodeFrame
  | CameraOpen
  | CameraStart
  | CameraStop

text \<open>
  The answers of the outside world during one iteration of the loop: the clock at
  line 72, the status request, the one \<^verbatim>\<open>time.sleep\<close> an iteration makes at most,
  \<^verbatim>\<open>picam.capture_array()\<close>, the three encoding calls, and the upload.
\<close>

record iter_env =
  time_now :: rat
  get_outcome :: http_outcome
  sleep_outcome :: "exn option"
  capture_outcome :: "exn option"
  encode_outcome :: "exn option"
  post_outcome :: http_outcome

subsection \<open>The loop's local variables\<close>

record loop_state =
  last_frame_time :: rat
  last_status_check :: rat
  frame_count :: int
  is_active :: bool
  status_check_interval :: rat

text \<open>Lines 65 to 69: the variables as the loop is entered.\<close>

definition init_state :: "rat \<Rightarrow> rat \<Rightarrow> loop_state" where
  "init_state t_frame t_status =
     \<lparr> last_frame_time = t_frame,
       last_status_check = t_status,
       frame_count = 0,
       is_active = False,
       status_check_interval = 1 \<rparr>"

text \<open>
  A piece of the loop body returns the events it caused, the local variables where it
  stopped, and the exception it raised (\<open>None\<close>: it ran to its end).
\<close>

type_synonym step_result = "event list \<times> loop_state \<times> exn option"

subsection \<open>The status poll (lines 75 to 99)\<close>

text \<open>
  Lines 77 to 95, the body of the inner \<^verbatim>\<open>try\<close>. \<open>is_active\<close> is assigned at
  line 83 only, after everything that can raise; lines 92 and 95 run for every status
  code.
\<close>

definition status_try :: "string \<Rightarrow> loop_state \<Rightarrow> rat \<Rightarrow> http_outcome \<Rightarrow> step_result" where
  "status_try camera_id s current_time get =
     (case get of
        Raised e \<Rightarrow> ([HttpGet], s, Some e)
      | Response status_code body \<Rightarrow>
          (let after = (\<lambda>ev s1.
                 (HttpGet # ev,
                  s1\<lparr>last_status_check := current_time,
                     status_check_interval := (if \<not> is_active s1 then 1/2 else 3)\<rparr>,
                  None))
           in if status_code = 200 then
                (case body of
                   Inl e \<Rightarrow> ([HttpGet], s, Some e)
                 | Inr status_data \<Rightarrow>
                     (case py_in ''current_source'' status_data of
                        Inl e \<Rightarrow> ([HttpGet], s, Some e)
                      | Inr False \<Rightarrow> after [] s
                      | Inr True \<Rightarrow>
                          (case py_getitem status_data ''current_source'' of
                             Inl e \<Rightarrow> ([HttpGet], s, Some e)
                           | Inr v \<Rightarrow>
                               (let was_active = is_active s;
                                    s1 = s\<lparr>is_active := py_eq_str v camera_id\<rparr>
                                in after
                                     (if is_active s1 \<noteq> was_active
                                      then [Log INFO (if is_active s1 then MsgActivated
                                                      else MsgDeactivated)]
                                      else [])
                                     s1))))
              else after [] s))"

text \<open>
  Lines 76 to 99: the \<^verbatim>\<open>try\<close> with its handler. \<^verbatim>\<open>except Exception\<close> logs and
  resets the timer; it does not touch \<open>status_check_interval\<close>. An exception that
  is not an \<^verbatim>\<open>Exception\<close> goes on to the handlers of \<^verbatim>\<open>main\<close>.
\<close>

definition status_check :: "string \<Rightarrow> loop_state \<Rightarrow> rat \<Rightarrow> http_outcome \<Rightarrow> step_result" where
  "status_check camera_id s current_time get =
     (case status_try camera_id s current_time get of
        (ev, s1, None) \<Rightarrow> (ev, s1, None)
      | (ev, s1, Some e) \<Rightarrow>
          if is_Exception e
          then (ev @ [Log ERROR MsgStatusError], s1\<lparr>last_status_check := current_time\<rparr>, None)
          else (ev, s1, Some e))"

text \<open>Line 75: the poll is made when the interval has passed.\<close>

definition poll_stage :: "string \<Rightarrow> loop_state \<Rightarrow> iter_env \<Rightarrow> step_result" where
  "poll_stage camera_id s env =
     (if time_now env - last_status_check s \<ge> status_check_interval s
      then status_check camera_id s (time_now env) (get_outcome env)
      else ([], s, None))"

subsection \<open>The upload (lines 126 to 153)\<close>

text \<open>
  Line 142: \<^verbatim>\<open>'is_active' in resp_data and not resp_data['is_active']\<close>, with the
  short circuit of \<^verbatim>\<open>and\<close>.
\<close>

definition revoked :: "json \<Rightarrow> exn + bool" where
  "revoked resp_data =
     (case py_in ''is_active'' resp_data of
        Inl e \<Rightarrow> Inl e
      | Inr False \<Rightarrow> Inr False
      | Inr True \<Rightarrow>
          (case py_getitem resp_data ''is_active'' of
             Inl e \<Rightarrow> Inl e
           | Inr v \<Rightarrow> Inr (\<not> py_truthy v)))"

text \<open>
  Lines 128 to 149, the body of the \<^verbatim>\<open>try\<close>. The message of line 147 divides by
  \<open>elapsed\<close>, which raises \<^verbatim>\<open>ZeroDivisionError\<close> when it is zero.
\<close>

definition upload_try :: "loop_state \<Rightarrow> rat \<Rightarrow> http_outcome \<Rightarrow> step_result" where
  "upload_try s elapsed post =
     (case post of
        Raised e \<Rightarrow> ([HttpPost], s, Some e)
      | Response status_code body \<Rightarrow>
          if status_code = 200 then
            (case body of
               Inl e \<Rightarrow> ([HttpPost], s, Some e)
             | Inr resp_data \<Rightarrow>
                 (let s1 = s\<lparr>frame_count := frame_count s + 1\<rparr>
                  in case revoked resp_data of
                       Inl e \<Rightarrow> ([HttpPost], s1, Some e)
                     | Inr r \<Rightarrow>
                         (let s2 = (if r then s1\<lparr>is_active := False\<rparr> else s1);
                              ev = (if r then [HttpPost, Log INFO MsgServerDeactivated]
                                    else [HttpPost])
                          in if frame_count s2 mod 30 = 0 then
                               (if elapsed = 0 then (ev, s2, Some ZeroDivisionError)
                                else (ev @ [Log INFO (MsgFrameOk (frame_count s2) (1 / elapsed))],
                                      s2, None))
                             else (ev, s2, None))))
          else ([HttpPost, Log WARNING (MsgFrameFailed status_code)], s, None))"

text \<open>
  Lines 126 to 153: the \<^verbatim>\<open>try\<close> with its handler, which catches a
  \<^verbatim>\<open>RequestException\<close> only, logs it and sleeps one second.
\<close>

definition upload_frame :: "loop_state \<Rightarrow> rat \<Rightarrow> http_outcome \<Rightarrow> exn option \<Rightarrow> step_result" where
  "upload_frame s elapsed post sleep =
     (case upload_try s elapsed post of
        (ev, s1, None) \<Rightarrow> (ev, s1, None)
      | (ev, s1, Some e) \<Rightarrow>
          if is_RequestException e
          then (ev @ [Log ERROR MsgConnError, Sleep 1], s1, sleep)
          else (ev, s1, Some e))"

subsection \<open>One iteration of the loop (lines 72 to 156)\<close>

text \<open>
  Lines 102 to 156, entered with the variables the poll left: the activation gate, the
  pacing gate, capture, encoding, upload, and the update of \<open>last_frame_time\<close>.
\<close>

definition frame_stage :: "rat \<Rightarrow> loop_state \<Rightarrow> iter_env \<Rightarrow> step_result" where
  "frame_stage frame_interval s env =
     (let current_time = time_now env
      in if \<not> is_active s then ([Sleep (1/10)], s, sleep_outcome env)
         else
           (let elapsed = current_time - last_frame_time s
            in if elapsed < frame_interval then ([Sleep (1/1000)], s, sleep_outcome env)
               else
                 (case capture_outcome env of
                    Some e \<Rightarrow> ([CaptureFrame], s, Some e)
                  | None \<Rightarrow>
                      (case encode_outcome env of
                         Some e \<Rightarrow> ([CaptureFrame, EncodeFrame], s, Some e)
                       | None \<Rightarrow>
                           (case upload_frame s elapsed (post_outcome env) (sleep_outcome env) of
                              (ev, s1, Some e) \<Rightarrow> ([CaptureFrame, EncodeFrame] @ ev, s1, Some e)
                            | (ev, s1, None) \<Rightarrow>
                                ([CaptureFrame, EncodeFrame] @ ev,
                                 s1\<lparr>last_frame_time := current_time\<rparr>, None))))))"

definition iteration :: "string \<Rightarrow> rat \<Rightarrow> loop_state \<Rightarrow> iter_env \<Rightarrow> step_result" where
  "iteration camera_id frame_interval s env =
     (case poll_stage camera_id s env of
        (ev, s1, Some e) \<Rightarrow> (ev, s1, Some e)
      | (ev, s1, None) \<Rightarrow>
          (case frame_stage frame_interval s1 env of
             (ev2, s2, x) \<Rightarrow> (ev @ ev2, s2, x)))"

subsection \<open>The loop (line 71)\<close>

text \<open>
  \<^verbatim>\<open>while True\<close> has no exit of its own: the loop runs until an iteration raises.
  It is run here on the answers of the outside world for finitely many iterations; the
  result \<open>None\<close> says that the loop is still running after them. The trace keeps, for
  each iteration, its \<open>current_time\<close> and its events.
\<close>

fun run_loop ::
  "string \<Rightarrow> rat \<Rightarrow> loop_state \<Rightarrow> iter_env list \<Rightarrow> (rat \<times> event list) list \<times> loop_state \<times> exn option"
where
  "run_loop camera_id frame_interval s [] = ([], s, None)"
| "run_loop camera_id frame_interval s (env # envs) =
     (case iteration camera_id frame_interval s env of
        (ev, s1, Some e) \<Rightarrow> ([(time_now env, ev)], s1, Some e)
      | (ev, s1, None) \<Rightarrow>
          (case run_loop camera_id frame_interval s1 envs of
             (tr, s2, x) \<Rightarrow> ((time_now env, ev) # tr, s2, x)))"

text \<open>The \<open>current_time\<close> of the iterations that captured a frame.\<close>

definition capture_times :: "(rat \<times> event list) list \<Rightarrow> rat list" where
  "capture_times tr = map fst (filter (\<lambda>p. CaptureFrame \<in> set (snd p)) tr)"

subsection \<open>The program (lines 21 to 165)\<close>

record config =
  server :: string
  width :: int
  height :: int
  fps :: int
  quality :: int
  camera_id :: string

text \<open>
  The answers of the outside world before the loop: the constructor
  \<^verbatim>\<open>Picamera2()\<close>, the three calls that configure and start the camera, the two
  seconds of sleep, and the clock at lines 65 and 66.
\<close>

record init_env =
  camera_ctor :: "exn option"
  camera_setup :: "exn option"
  settle_sleep :: "exn option"
  clock_frame :: rat
  clock_status :: rat

text \<open>How far the process got: still in the loop, returned from \<^verbatim>\<open>main\<close>, or left
  it with an exception no handler caught.\<close>

datatype exit = Running | Returned | Propagated exn

text \<open>
  Lines 51 to 156, the body of the outer \<^verbatim>\<open>try\<close>. The flag says whether
  \<^verbatim>\<open>picam\<close> was assigned, which is what \<^verbatim>\<open>'picam' in locals()\<close> tests.
\<close>

definition try_body :: "config \<Rightarrow> init_env \<Rightarrow> iter_env list \<Rightarrow> event list \<times> bool \<times> exn option" where
  "try_body cfg ienv envs =
     (case camera_ctor ienv of
        Some e \<Rightarrow> ([CameraOpen], False, Some e)
      | None \<Rightarrow>
          (case camera_setup ienv of
             Some e \<Rightarrow> ([CameraOpen, CameraStart], True, Some e)
           | None \<Rightarrow>
               (let ev0 = [CameraOpen, CameraStart, Log INFO MsgCameraReady, Sleep 2]
                in case settle_sleep ienv of
                     Some e \<Rightarrow> (ev0, True, Some e)
                   | None \<Rightarrow>
                       if fps cfg = 0 then (ev0, True, Some ZeroDivisionError)
                       else
                         (let frame_interval = 1 / of_int (fps cfg);
                              s0 = init_state (clock_frame ienv) (clock_status ienv)
                          in case run_loop (camera_id cfg) frame_interval s0 envs of
                               (tr, s, x) \<Rightarrow>
                                 (ev0 @ [Log INFO MsgStreamStart] @ concat (map snd tr),
                                  True, x)))))"

text \<open>
  \<^verbatim>\<open>main\<close>: the three log lines before the \<^verbatim>\<open>try\<close>, its body, the handlers of
  lines 158 to 161 and the \<^verbatim>\<open>finally\<close> of lines 162 to 165. While the loop is still
  running nothing after it has happened.
\<close>

definition main :: "config \<Rightarrow> init_env \<Rightarrow> iter_env list \<Rightarrow> event list \<times> exit" where
  "main cfg ienv envs =
     (let ev0 = [Log INFO MsgServerUrl, Log INFO MsgSettings, Log INFO MsgCameraId]
      in case try_body cfg ienv envs of
           (ev, has_picam, None) \<Rightarrow> (ev0 @ ev, Running)
         | (ev, has_picam, Some e) \<Rightarrow>
             (let handler =
                    (if e = KeyboardInterrupt then [Log INFO MsgInterrupted]
                     else if is_Exception e then [Log ERROR MsgError]
                     else []);
                  cleanup = (if has_picam then [CameraStop] else []) @ [Log INFO MsgExit]
              in (ev0 @ ev @ handler @ cleanup,
                  if e = KeyboardInterrupt \<or> is_Exception e then Returned else Propagated e)))"

subsection \<open>Example inputs\<close>

text \<open>
  The default configuration of the command line, and an iteration at time \<open>t\<close> in
  which every outside call succeeds: the status names \<open>camera_0\<close> as the current
  source and the upload is answered with an empty JSON object.
\<close>

definition default_config :: config where
  "default_config =
     \<lparr> server = ''http://192.168.219.100:5000'', width = 640, height = 480,
       fps = 12, quality = 70, camera_id = ''camera_0'' \<rparr>"

definition calm_env :: "rat \<Rightarrow> iter_env" where
  "calm_env t =
     \<lparr> time_now = t,
       get_outcome = Response 200 (Inr (JObj [(''current_source'', JStr ''camera_0'')])),
       sleep_outcome = None,
       capture_outcome = None,
       encode_outcome = None,
       post_outcome = Response 200 (Inr (JObj [])) \<rparr>"

definition calm_start :: init_env where
  "calm_start =
     \<lparr> camera_ctor = None, camera_setup = None, settle_sleep = None,
       clock_frame = 0, clock_status = 0 \<rparr>"

text \<open>The local variables of a client that is streaming: active since time \<open>t\<close>.\<close>

definition streaming :: "rat \<Rightarrow> loop_state" where
  "streaming t =
     \<lparr> last_frame_time = t, last_status_check = t, frame_count = 1,
       is_active = True, status_check_interval = 3 \<rparr>"

section \<open>What the pieces of the loop body leave alone\<close>

lemma status_try_keeps:
  assumes "status_try cid s t get = (ev, s', x)"
  shows "last_frame_time s' = last_frame_time s \<and> frame_count s' = frame_count s
       \<and> set ev \<subseteq> {HttpGet, Log INFO MsgActivated, Log INFO MsgDeactivated}"
  using assms
  by (auto simp: status_try_def Let_def split: http_outcome.splits sum.splits if_splits bool.splits)

lemma status_check_keeps:
  assumes "status_check cid s t get = (ev, s', x)"
  shows "last_frame_time s' = last_frame_time s \<and> frame_count s' = frame_count s
       \<and> set ev \<subseteq> {HttpGet, Log INFO MsgActivated, Log INFO MsgDeactivated, Log ERROR MsgStatusError}"
proof -
  obtain ev0 s0 x0 where t: "status_try cid s t get = (ev0, s0, x0)"
    by (cases "status_try cid s t get") auto
  from status_try_keeps [OF t] assms t show ?thesis
    by (auto simp: status_check_def split: option.splits if_splits)
qed

lemma poll_stage_keeps:
  assumes "poll_stage cid s env = (ev, s', x)"
  shows "last_frame_time s' = last_frame_time s \<and> frame_count s' = frame_count s
       \<and> set ev \<subseteq> {HttpGet, Log INFO MsgActivated, Log INFO MsgDeactivated, Log ERROR MsgStatusError}"
proof (cases "time_now env - last_status_check s \<ge> status_check_interval s")
  case True
  with assms have "status_check cid s (time_now env) (get_outcome env) = (ev, s', x)"
    by (simp add: poll_stage_def)
  from status_check_keeps [OF this] show ?thesis .
next
  case False
  with assms show ?thesis by (simp add: poll_stage_def)
qed

lemma upload_try_keeps:
  assumes "upload_try s el post = (ev, s', x)"
  shows "last_frame_time s' = last_frame_time s \<and> last_status_check s' = last_status_check s
       \<and> status_check_interval s' = status_check_interval s
       \<and> (is_active s' \<longrightarrow> is_active s)
       \<and> HttpPost \<in> set ev
       \<and> CaptureFrame \<notin> set ev \<and> CameraStop \<notin> set ev \<and> HttpGet \<notin> set ev"
  using assms
  by (auto simp: upload_try_def Let_def split: http_outcome.splits sum.splits if_splits)

lemma upload_frame_keeps:
  assumes "upload_frame s el post sl = (ev, s', x)"
  shows "last_frame_time s' = last_frame_time s \<and> last_status_check s' = last_status_check s
       \<and> status_check_interval s' = status_check_interval s
       \<and> (is_active s' \<longrightarrow> is_active s)
       \<and> HttpPost \<in> set ev
       \<and> CaptureFrame \<notin> set ev \<and> CameraStop \<notin> set ev \<and> HttpGet \<notin> set ev"
proof -
  obtain ev0 s0 x0 where t: "upload_try s el post = (ev0, s0, x0)"
    by (cases "upload_try s el post") auto
  from upload_try_keeps [OF t] assms t show ?thesis
    by (auto simp: upload_frame_def split: option.splits if_splits)
qed


lemma frame_stage_capture:
  assumes "frame_stage fi s env = (ev, s', x)"
  shows "(CaptureFrame \<in> set ev \<longrightarrow>
            is_active s \<and> fi \<le> time_now env - last_frame_time s
            \<and> (x = None \<longrightarrow> last_frame_time s' = time_now env))
       \<and> (CaptureFrame \<notin> set ev \<longrightarrow> s' = s \<and> HttpPost \<notin> set ev \<and> EncodeFrame \<notin> set ev)
       \<and> (HttpPost \<in> set ev \<longrightarrow> CaptureFrame \<in> set ev)
       \<and> CameraStop \<notin> set ev \<and> HttpGet \<notin> set ev"
proof (cases "is_active s \<and> \<not> time_now env - last_frame_time s < fi
              \<and> capture_outcome env = None \<and> encode_outcome env = None")
  case True
  obtain ev0 s0 x0 where u: "upload_frame s (time_now env - last_frame_time s)
      (post_outcome env) (sleep_outcome env) = (ev0, s0, x0)"
    by (cases "upload_frame s (time_now env - last_frame_time s) (post_outcome env) (sleep_outcome env)") auto
  from upload_frame_keeps [OF u] assms True u show ?thesis
    by (auto simp: frame_stage_def Let_def split: option.splits)
next
  case False
  with assms show ?thesis
    by (auto simp: frame_stage_def Let_def split: option.splits if_splits)
qed


section \<open>JSON lookups\<close>

lemma py_eq_str_iff: "py_eq_str v t \<longleftrightarrow> v = JStr t"
  by (cases v) auto

lemma py_in_obj: "map_of kvs k = Some v \<Longrightarrow> py_in k (JObj kvs) = Inr True"
  by (force dest: map_of_SomeD)

lemma py_getitem_obj: "map_of kvs k = Some v \<Longrightarrow> py_getitem (JObj kvs) k = Inr v"
  by simp

lemma py_getitem_Inr: "py_getitem d k = Inr v \<Longrightarrow> \<exists>kvs. d = JObj kvs \<and> map_of kvs k = Some v"
  by (cases d) (auto split: option.splits)

section \<open>The status poll\<close>

lemma status_try_obj:
  assumes "map_of kvs ''current_source'' = Some v"
  shows "status_try cid s t (Response 200 (Inr (JObj kvs))) =
           (HttpGet # (if (v = JStr cid) \<noteq> is_active s
                       then [Log INFO (if v = JStr cid then MsgActivated else MsgDeactivated)]
                       else []),
            s\<lparr>is_active := (v = JStr cid), last_status_check := t,
              status_check_interval := (if v = JStr cid then 3 else 1/2)\<rparr>,
            None)"
  using py_in_obj [OF assms] py_getitem_obj [OF assms]
  by (simp add: status_try_def Let_def py_eq_str_iff del: py_in.simps py_getitem.simps)

lemma status_try_raised:
  assumes "status_try cid s t get = (ev, s', Some e)"
  shows "s' = s \<and> ev = [HttpGet]"
  using assms
  by (auto simp: status_try_def Let_def split: http_outcome.splits sum.splits if_splits bool.splits)

lemma status_try_done:
  assumes "status_try cid s t get = (ev, s', None)"
  shows "status_check_interval s' = (if is_active s' then 3 else 1/2) \<and> last_status_check s' = t"
  using assms
  by (auto simp: status_try_def Let_def split: http_outcome.splits sum.splits if_splits bool.splits)

lemma status_try_activates:
  assumes "status_try cid s t get = (ev, s', x)" and "\<not> is_active s" and "is_active s'"
  shows "\<exists>kvs. get = Response 200 (Inr (JObj kvs)) \<and> map_of kvs ''current_source'' = Some (JStr cid)"
  using assms
  by (auto simp: status_try_def Let_def py_eq_str_iff
      split: http_outcome.splits sum.splits if_splits bool.splits dest!: py_getitem_Inr)

lemma status_check_is_active:
  assumes "status_check cid s t get = (ev, s', x)" and "status_try cid s t get = (ev0, s0, x0)"
  shows "is_active s' = is_active s0 \<and> status_check_interval s' = status_check_interval s0"
  using assms by (auto simp: status_check_def split: option.splits if_splits)

section \<open>The upload\<close>

lemma revoked_obj:
  "map_of kvs ''is_active'' = Some v \<Longrightarrow> revoked (JObj kvs) = Inr (\<not> py_truthy v)"
  using py_in_obj [of kvs "''is_active''" v]
  by (simp add: revoked_def del: py_in.simps)

lemma revoked_absent: "py_in ''is_active'' d \<noteq> Inr True \<Longrightarrow> revoked d \<noteq> Inr True"
  by (auto simp: revoked_def split: sum.splits bool.splits)

lemma upload_try_200:
  assumes "upload_try s el (Response 200 (Inr d)) = (ev, s', x)"
  shows "(revoked d = Inr True \<longrightarrow> \<not> is_active s' \<and> Log INFO MsgServerDeactivated \<in> set ev)
       \<and> (revoked d \<noteq> Inr True \<longrightarrow> is_active s' = is_active s)"
  using assms
  by (auto simp: upload_try_def Let_def split: sum.splits if_splits)

lemma upload_frame_200:
  assumes "upload_frame s el (Response 200 (Inr d)) sl = (ev, s', x)"
  shows "(revoked d = Inr True \<longrightarrow> \<not> is_active s' \<and> Log INFO MsgServerDeactivated \<in> set ev)
       \<and> (revoked d \<noteq> Inr True \<longrightarrow> is_active s' = is_active s)"
proof -
  obtain ev0 s0 x0 where t: "upload_try s el (Response 200 (Inr d)) = (ev0, s0, x0)"
    by (cases "upload_try s el (Response 200 (Inr d))") auto
  from upload_try_200 [OF t] assms t show ?thesis
    by (auto simp: upload_frame_def split: option.splits if_splits)
qed

lemma upload_frame_raised:
  assumes "is_RequestException e"
  shows "upload_frame s el (Raised e) sl = ([HttpPost, Log ERROR MsgConnError, Sleep 1], s, sl)"
  using assms by (simp add: upload_frame_def upload_try_def)

section \<open>The iteration\<close>

lemma frame_stage_post:
  assumes "frame_stage fi s env = (ev, s', x)" and "HttpPost \<in> set ev"
  shows "\<exists>ev0 s0 x0.
           upload_frame s (time_now env - last_frame_time s) (post_outcome env) (sleep_outcome env)
             = (ev0, s0, x0)
         \<and> ev = [CaptureFrame, EncodeFrame] @ ev0 \<and> is_active s' = is_active s0 \<and> x = x0"
proof -
  obtain ev0 s0 x0 where u: "upload_frame s (time_now env - last_frame_time s)
      (post_outcome env) (sleep_outcome env) = (ev0, s0, x0)"
    by (cases "upload_frame s (time_now env - last_frame_time s) (post_outcome env) (sleep_outcome env)") auto
  from assms u show ?thesis
    by (auto simp: frame_stage_def Let_def split: option.splits if_splits)
qed

lemma frame_stage_timers:
  assumes "frame_stage fi s env = (ev, s', x)"
  shows "status_check_interval s' = status_check_interval s
       \<and> last_status_check s' = last_status_check s
       \<and> (is_active s' \<longrightarrow> is_active s)"
proof -
  obtain ev0 s0 x0 where u: "upload_frame s (time_now env - last_frame_time s)
      (post_outcome env) (sleep_outcome env) = (ev0, s0, x0)"
    by (cases "upload_frame s (time_now env - last_frame_time s) (post_outcome env) (sleep_outcome env)") auto
  from upload_frame_keeps [OF u] assms u show ?thesis
    by (auto simp: frame_stage_def Let_def split: option.splits if_splits)
qed

lemma iteration_split:
  assumes "iteration cid fi s env = (ev, s', x)"
  obtains (poll_raised) e where "poll_stage cid s env = (ev, s', Some e)" and "x = Some e"
  | (poll_done) ev1 s1 ev2 where "poll_stage cid s env = (ev1, s1, None)"
      and "frame_stage fi s1 env = (ev2, s', x)" and "ev = ev1 @ ev2"
proof -
  obtain ev1 s1 x1 where p: "poll_stage cid s env = (ev1, s1, x1)"
    by (cases "poll_stage cid s env") auto
  show thesis
  proof (cases x1)
    case None
    obtain ev2 s2 x2 where f: "frame_stage fi s1 env = (ev2, s2, x2)"
      by (cases "frame_stage fi s1 env") auto
    from assms p None f have "ev = ev1 @ ev2" "s' = s2" "x = x2"
      by (simp_all add: iteration_def)
    with p None f show thesis by (intro poll_done) auto
  next
    case (Some e)
    with assms p have "ev = ev1" "s' = s1" "x = Some e"
      by (simp_all add: iteration_def)
    with p Some show thesis by (intro poll_raised) auto
  qed
qed

lemma poll_stage_no_post:
  assumes "poll_stage cid s env = (ev, s', x)"
  shows "HttpPost \<notin> set ev \<and> CaptureFrame \<notin> set ev \<and> CameraStop \<notin> set ev"
  using poll_stage_keeps [OF assms] by auto

lemma iteration_capture:
  assumes "iteration cid fi s env = (ev, s', x)"
  shows "(CaptureFrame \<in> set ev \<longrightarrow>
            fi \<le> time_now env - last_frame_time s
            \<and> (x = None \<longrightarrow> last_frame_time s' = time_now env))
       \<and> (CaptureFrame \<notin> set ev \<longrightarrow> last_frame_time s' = last_frame_time s)
       \<and> CameraStop \<notin> set ev"
  using assms
proof (cases rule: iteration_split)
  case (poll_raised e)
  from poll_stage_keeps [OF poll_raised(1)] show ?thesis by auto
next
  case (poll_done ev1 s1 ev2)
  from poll_stage_keeps [OF poll_done(1)] frame_stage_capture [OF poll_done(2)] poll_done(3)
  show ?thesis by auto
qed

section \<open>The loop and the program\<close>

lemma capture_times_Cons:
  "capture_times ((t, ev) # tr) =
     (if CaptureFrame \<in> set ev then t # capture_times tr else capture_times tr)"
  by (simp add: capture_times_def)

lemma run_loop_spacing:
  "run_loop cid fi s envs = (tr, s', x) \<Longrightarrow>
     successively (\<lambda>a b. fi \<le> b - a) (last_frame_time s # capture_times tr)"
proof (induction envs arbitrary: s tr s' x)
  case Nil
  then show ?case by (simp add: capture_times_def)
next
  case (Cons env envs)
  obtain ev s1 x1 where i: "iteration cid fi s env = (ev, s1, x1)"
    by (cases "iteration cid fi s env") auto
  note c = iteration_capture [OF i]
  show ?case
  proof (cases x1)
    case (Some e)
    with Cons.prems i have "tr = [(time_now env, ev)]" by simp
    with c show ?thesis by (simp add: capture_times_def)
  next
    case None
    obtain tr1 s2 x2 where r: "run_loop cid fi s1 envs = (tr1, s2, x2)"
      by (cases "run_loop cid fi s1 envs") auto
    from Cons.prems i None r have tr: "tr = (time_now env, ev) # tr1" by simp
    from Cons.IH [OF r]
    have ih: "successively (\<lambda>a b. fi \<le> b - a) (last_frame_time s1 # capture_times tr1)" .
    show ?thesis
    proof (cases "CaptureFrame \<in> set ev")
      case True
      with c None have "fi \<le> time_now env - last_frame_time s" "last_frame_time s1 = time_now env"
        by simp_all
      with ih tr True show ?thesis by (simp add: capture_times_Cons)
    next
      case False
      with c have "last_frame_time s1 = last_frame_time s" by simp
      with ih tr False show ?thesis by (simp add: capture_times_Cons)
    qed
  qed
qed

lemma run_loop_no_stop:
  "run_loop cid fi s envs = (tr, s', x) \<Longrightarrow> CameraStop \<notin> set (concat (map snd tr))"
proof (induction envs arbitrary: s tr s' x)
  case Nil
  then show ?case by simp
next
  case (Cons env envs)
  obtain ev s1 x1 where i: "iteration cid fi s env = (ev, s1, x1)"
    by (cases "iteration cid fi s env") auto
  from iteration_capture [OF i] have c: "CameraStop \<notin> set ev" by simp
  show ?case
  proof (cases x1)
    case (Some e)
    with Cons.prems i c show ?thesis by auto
  next
    case None
    obtain tr1 s2 x2 where r: "run_loop cid fi s1 envs = (tr1, s2, x2)"
      by (cases "run_loop cid fi s1 envs") auto
    from Cons.prems i None r have "tr = (time_now env, ev) # tr1" by simp
    with Cons.IH [OF r] c show ?thesis by simp
  qed
qed

lemma try_body_picam:
  assumes "try_body cfg ienv envs = (ev, has_picam, x)"
  shows "CameraStop \<notin> set ev \<and> (camera_ctor ienv = None \<longrightarrow> has_picam)
       \<and> (camera_ctor ienv \<noteq> None \<longrightarrow> \<not> has_picam)"
proof -
  obtain tr s x1 where r: "run_loop (camera_id cfg) (1 / of_int (fps cfg))
      (init_state (clock_frame ienv) (clock_status ienv)) envs = (tr, s, x1)"
    by (cases "run_loop (camera_id cfg) (1 / of_int (fps cfg))
      (init_state (clock_frame ienv) (clock_status ienv)) envs") auto
  show ?thesis
  proof (cases "camera_ctor ienv")
    case (Some e)
    with assms have "ev = [CameraOpen]" and "\<not> has_picam"
      by (simp_all add: try_body_def)
    with Some show ?thesis by simp
  next
    case None
    with run_loop_no_stop [OF r] assms r show ?thesis
      by (cases "camera_setup ienv"; cases "settle_sleep ienv")
         (auto simp: try_body_def Let_def split: if_splits)
  qed
qed

section \<open>The claims\<close>

text \<open>
  C1. In an iteration whose status poll leaves \<open>is_active\<close> false (the value the gate
  of line 102 reads), no frame is captured or encoded and no upload request is issued:
  the iteration ends with the variables as the poll left them, and when the poll did
  not raise it does nothing more than sleep 0.1 seconds. So a capture or an upload
  happens only in an iteration that reaches the gate with \<open>is_active\<close> true.
\<close>

theorem inactive_no_capture_no_upload:
  assumes "poll_stage cid s env = (ev1, s1, x1)"
      and "\<not> is_active s1"
      and "iteration cid fi s env = (ev, s', x)"
  shows "HttpPost \<notin> set ev \<and> CaptureFrame \<notin> set ev \<and> EncodeFrame \<notin> set ev
       \<and> s' = s1
       \<and> (x1 = None \<longrightarrow> ev = ev1 @ [Sleep (1/10)])"
proof -
  from poll_stage_keeps [OF assms(1)]
  have e1: "HttpPost \<notin> set ev1 \<and> CaptureFrame \<notin> set ev1 \<and> EncodeFrame \<notin> set ev1"
    by auto
  show ?thesis
  proof (cases x1)
    case None
    with assms e1 show ?thesis
      by (auto simp: iteration_def frame_stage_def)
  next
    case (Some e)
    with assms e1 show ?thesis
      by (auto simp: iteration_def)
  qed
qed

theorem inactive_no_capture_no_upload_witness:
  "poll_stage ''camera_0'' (init_state 0 0)
       ((calm_env 2)\<lparr>get_outcome := Response 200 (Inr (JObj [(''current_source'', JStr ''camera_1'')]))\<rparr>)
     = ([HttpGet], (init_state 0 0)\<lparr>last_status_check := 2, status_check_interval := 1/2\<rparr>, None)
   \<and> \<not> is_active ((init_state 0 0)\<lparr>last_status_check := 2, status_check_interval := 1/2\<rparr>)
   \<and> iteration ''camera_0'' (1/12) (init_state 0 0)
       ((calm_env 2)\<lparr>get_outcome := Response 200 (Inr (JObj [(''current_source'', JStr ''camera_1'')]))\<rparr>)
     = ([HttpGet, Sleep (1/10)],
        (init_state 0 0)\<lparr>last_status_check := 2, status_check_interval := 1/2\<rparr>, None)
   \<and> HttpPost \<notin> set [HttpGet, Sleep (1/10)]
   \<and> CaptureFrame \<notin> set [HttpGet, Sleep (1/10)]
   \<and> EncodeFrame \<notin> set [HttpGet, Sleep (1/10)]"
proof -
  let ?env = "(calm_env 2)\<lparr>get_outcome :=
                 Response 200 (Inr (JObj [(''current_source'', JStr ''camera_1'')]))\<rparr>"
  let ?s1 = "(init_state 0 0)\<lparr>last_status_check := 2, status_check_interval := 1/2\<rparr>"
  have p: "poll_stage ''camera_0'' (init_state 0 0) ?env = ([HttpGet], ?s1, None)"
    by (simp add: poll_stage_def status_check_def status_try_def calm_env_def init_state_def)
  have a: "\<not> is_active ?s1"
    by (simp add: init_state_def)
  have i: "iteration ''camera_0'' (1/12) (init_state 0 0) ?env
             = ([HttpGet, Sleep (1/10)], ?s1, None)"
    by (simp add: iteration_def p frame_stage_def a) (simp add: calm_env_def)
  from inactive_no_capture_no_upload [OF p a i] p a i show ?thesis
    by simp
qed

text \<open>
  C3. A status poll that is answered with HTTP 200 and a JSON object holding
  \<open>current_source\<close> leaves \<open>is_active\<close> true exactly when that value is the string
  \<open>camera_id\<close>, and does not raise. A poll that raises (timeout, connection error, or
  anything else) or is answered with another status code leaves \<open>is_active\<close> as it
  was.
\<close>

theorem poll_sets_is_active:
  assumes "status_check cid s t get = (ev, s', x)"
  shows "(get = Response 200 (Inr (JObj kvs)) \<and> map_of kvs ''current_source'' = Some v
            \<longrightarrow> (is_active s' \<longleftrightarrow> v = JStr cid) \<and> x = None)
       \<and> (get = Raised e \<or> (get = Response code body \<and> code \<noteq> 200)
            \<longrightarrow> is_active s' = is_active s)"
proof -
  have a: "(is_active s' \<longleftrightarrow> v = JStr cid) \<and> x = None"
    if h: "get = Response 200 (Inr (JObj kvs)) \<and> map_of kvs ''current_source'' = Some v"
  proof -
    from h have "map_of kvs ''current_source'' = Some v" ..
    from status_try_obj [OF this, of cid s t] assms h show ?thesis
      by (auto simp: status_check_def)
  qed
  have b: "is_active s' = is_active s"
    if "get = Raised e \<or> (get = Response code body \<and> code \<noteq> 200)"
    using that assms by (auto simp: status_check_def status_try_def split: if_splits)
  from a b show ?thesis by blast
qed

theorem poll_sets_is_active_witness:
  "status_check ''camera_0'' (init_state 0 0) 1
       (Response 200 (Inr (JObj [(''current_source'', JStr ''camera_0'')])))
     = ([HttpGet, Log INFO MsgActivated],
        (init_state 0 0)\<lparr>is_active := True, last_status_check := 1, status_check_interval := 3\<rparr>,
        None)
   \<and> map_of [(''current_source'', JStr ''camera_0'')] ''current_source'' = Some (JStr ''camera_0'')
   \<and> is_active ((init_state 0 0)\<lparr>is_active := True, last_status_check := 1,
                                  status_check_interval := 3\<rparr>)"
proof -
  have c: "status_check ''camera_0'' (init_state 0 0) 1
             (Response 200 (Inr (JObj [(''current_source'', JStr ''camera_0'')])))
           = ([HttpGet, Log INFO MsgActivated],
              (init_state 0 0)\<lparr>is_active := True, last_status_check := 1,
                               status_check_interval := 3\<rparr>,
              None)"
    by (simp add: status_check_def status_try_def init_state_def)
  from poll_sets_is_active [OF c, of "[(''current_source'', JStr ''camera_0'')]"
      "JStr ''camera_0''" Timeout 200 "Inl Timeout"] c
  show ?thesis by simp
qed

text \<open>
  C9. A status poll answered with HTTP 200 and a body in which the test
  \<^verbatim>\<open>'current_source' in status_data\<close> is false (a JSON object without that key)
  leaves \<open>is_active\<close> as it was, and still runs lines 92 and 95: \<open>last_status_check\<close>
  is the current time and \<open>status_check_interval\<close> is the value belonging to the
  unchanged \<open>is_active\<close>. Nothing is raised and nothing is logged.
\<close>

theorem poll_without_current_source:
  assumes "status_check cid s t (Response 200 (Inr body)) = (ev, s', x)"
      and "py_in ''current_source'' body = Inr False"
  shows "is_active s' = is_active s
       \<and> last_status_check s' = t
       \<and> status_check_interval s' = (if is_active s then 3 else 1/2)
       \<and> ev = [HttpGet] \<and> x = None"
  using assms by (auto simp: status_check_def status_try_def)

theorem poll_without_current_source_witness:
  "status_check ''camera_0'' (streaming 0) 3 (Response 200 (Inr (JObj [(''status'', JStr ''ok'')])))
     = ([HttpGet], (streaming 0)\<lparr>last_status_check := 3\<rparr>, None)
   \<and> py_in ''current_source'' (JObj [(''status'', JStr ''ok'')]) = Inr False
   \<and> is_active ((streaming 0)\<lparr>last_status_check := 3\<rparr>) = is_active (streaming 0)
   \<and> last_status_check ((streaming 0)\<lparr>last_status_check := 3\<rparr>) = 3
   \<and> status_check_interval ((streaming 0)\<lparr>last_status_check := 3\<rparr>) = 3"
proof -
  have c: "status_check ''camera_0'' (streaming 0) 3
             (Response 200 (Inr (JObj [(''status'', JStr ''ok'')])))
           = ([HttpGet], (streaming 0)\<lparr>last_status_check := 3\<rparr>, None)"
    by (simp add: status_check_def status_try_def streaming_def)
  have m: "py_in ''current_source'' (JObj [(''status'', JStr ''ok'')]) = Inr False"
    by simp
  from poll_without_current_source [OF c m] c m show ?thesis
    by (simp add: streaming_def)
qed

text \<open>
  C4. When an active client whose pacing gate is open captures and encodes a frame
  and the upload is answered with HTTP 200 and a JSON object whose \<open>is_active\<close>
  field is false (or any other value Python counts as false), the frame is posted,
  the revocation is logged and \<open>is_active\<close> is false when the iteration ends. This
  holds of the upload step by itself, of the part of the iteration after the status
  poll, of an iteration in which no status poll is due, and of an iteration whose
  status poll left the client active.
\<close>

theorem upload_revokes_immediately:
  assumes "post_outcome env = Response 200 (Inr (JObj kvs))"
      and "map_of kvs ''is_active'' = Some v"
      and "\<not> py_truthy v"
      and "is_active s"
      and "\<not> time_now env - last_frame_time s < fi"
      and "capture_outcome env = None"
      and "encode_outcome env = None"
  shows "\<not> is_active (fst (snd (upload_frame s0 el (Response 200 (Inr (JObj kvs))) sl)))
       \<and> \<not> is_active (fst (snd (frame_stage fi s env)))
       \<and> HttpPost \<in> set (fst (frame_stage fi s env))
       \<and> Log INFO MsgServerDeactivated \<in> set (fst (frame_stage fi s env))
       \<and> (\<not> status_check_interval s \<le> time_now env - last_status_check s \<longrightarrow>
            iteration cid fi s env = frame_stage fi s env)
       \<and> (poll_stage cid s_start env = (ev1, s, None) \<longrightarrow>
            \<not> is_active (fst (snd (iteration cid fi s_start env)))
            \<and> HttpPost \<in> set (fst (iteration cid fi s_start env)))"
proof -
  from revoked_obj [OF assms(2)] assms(3) have r: "revoked (JObj kvs) = Inr True" by simp
  have a: "\<not> is_active (fst (snd (upload_frame s0 el (Response 200 (Inr (JObj kvs))) sl)))"
  proof -
    obtain ev0 s1 x0 where u: "upload_frame s0 el (Response 200 (Inr (JObj kvs))) sl = (ev0, s1, x0)"
      by (cases "upload_frame s0 el (Response 200 (Inr (JObj kvs))) sl") auto
    from upload_frame_200 [OF u] r u show ?thesis by simp
  qed
  obtain ev0 s1 x0 where u: "upload_frame s (time_now env - last_frame_time s)
      (Response 200 (Inr (JObj kvs))) (sleep_outcome env) = (ev0, s1, x0)"
    by (cases "upload_frame s (time_now env - last_frame_time s)
      (Response 200 (Inr (JObj kvs))) (sleep_outcome env)") auto
  from upload_frame_200 [OF u] r upload_frame_keeps [OF u]
  have k: "\<not> is_active s1" "Log INFO MsgServerDeactivated \<in> set ev0" "HttpPost \<in> set ev0"
    by simp_all
  from assms u have f: "frame_stage fi s env =
      ([CaptureFrame, EncodeFrame] @ ev0,
       (if x0 = None then s1\<lparr>last_frame_time := time_now env\<rparr> else s1), x0)"
    by (cases x0) (simp_all add: frame_stage_def)
  from f k have b: "\<not> is_active (fst (snd (frame_stage fi s env)))
       \<and> HttpPost \<in> set (fst (frame_stage fi s env))
       \<and> Log INFO MsgServerDeactivated \<in> set (fst (frame_stage fi s env))"
    by simp
  have c: "iteration cid fi s env = frame_stage fi s env"
    if "\<not> status_check_interval s \<le> time_now env - last_status_check s"
    using that by (cases "frame_stage fi s env") (simp add: iteration_def poll_stage_def)
  have d: "\<not> is_active (fst (snd (iteration cid fi s_start env)))
            \<and> HttpPost \<in> set (fst (iteration cid fi s_start env))"
    if "poll_stage cid s_start env = (ev1, s, None)"
    using that f k by (simp add: iteration_def)
  from a b c d show ?thesis by blast
qed

theorem upload_revokes_immediately_witness:
  "post_outcome ((calm_env 1)\<lparr>post_outcome := Response 200 (Inr (JObj [(''is_active'', JBool False)]))\<rparr>)
     = Response 200 (Inr (JObj [(''is_active'', JBool False)]))
   \<and> map_of [(''is_active'', JBool False)] ''is_active'' = Some (JBool False)
   \<and> \<not> py_truthy (JBool False)
   \<and> is_active (streaming 0)
   \<and> \<not> time_now ((calm_env 1)\<lparr>post_outcome :=
           Response 200 (Inr (JObj [(''is_active'', JBool False)]))\<rparr>)
         - last_frame_time (streaming 0) < 1/12
   \<and> iteration ''camera_0'' (1/12) (streaming 0)
       ((calm_env 1)\<lparr>post_outcome := Response 200 (Inr (JObj [(''is_active'', JBool False)]))\<rparr>)
     = ([CaptureFrame, EncodeFrame, HttpPost, Log INFO MsgServerDeactivated],
        (streaming 0)\<lparr>frame_count := 2, is_active := False, last_frame_time := 1\<rparr>, None)
   \<and> \<not> is_active (fst (snd (frame_stage (1/12) (streaming 0)
       ((calm_env 1)\<lparr>post_outcome := Response 200 (Inr (JObj [(''is_active'', JBool False)]))\<rparr>))))"
proof -
  let ?env = "(calm_env 1)\<lparr>post_outcome :=
                 Response 200 (Inr (JObj [(''is_active'', JBool False)]))\<rparr>"
  have p: "post_outcome ?env = Response 200 (Inr (JObj [(''is_active'', JBool False)]))"
    by (simp add: calm_env_def)
  have m: "map_of [(''is_active'', JBool False)] ''is_active'' = Some (JBool False)"
    by simp
  have t: "\<not> py_truthy (JBool False)" by simp
  have a: "is_active (streaming 0)" by (simp add: streaming_def)
  have g: "\<not> time_now ?env - last_frame_time (streaming 0) < 1/12"
    by (simp add: calm_env_def streaming_def)
  have c: "capture_outcome ?env = None" "encode_outcome ?env = None"
    by (simp_all add: calm_env_def)
  have r: "revoked (JObj [(''is_active'', JBool False)]) = Inr True"
    by (simp add: revoked_def)
  have i: "iteration ''camera_0'' (1/12) (streaming 0) ?env
           = ([CaptureFrame, EncodeFrame, HttpPost, Log INFO MsgServerDeactivated],
              (streaming 0)\<lparr>frame_count := 2, is_active := False, last_frame_time := 1\<rparr>, None)"
    by (simp add: iteration_def poll_stage_def frame_stage_def upload_frame_def upload_try_def
        r calm_env_def streaming_def)
  from upload_revokes_immediately [OF p m t a g c] p m t a g i show ?thesis
    by simp
qed

text \<open>
  C7. An upload answered with HTTP 200 and a body in which the test
  \<^verbatim>\<open>'is_active' in resp_data\<close> is not true (a JSON object without that key) leaves
  \<open>is_active\<close> as it was.
\<close>

theorem upload_without_is_active:
  assumes "upload_frame s el (Response 200 (Inr body)) sl = (ev, s', x)"
      and "py_in ''is_active'' body \<noteq> Inr True"
  shows "is_active s' = is_active s"
  using upload_frame_200 [OF assms(1)] revoked_absent [OF assms(2)] by simp

theorem upload_without_is_active_witness:
  "upload_frame (streaming 0) 1 (Response 200 (Inr (JObj [(''status'', JStr ''ok'')]))) None
     = ([HttpPost], (streaming 0)\<lparr>frame_count := 2\<rparr>, None)
   \<and> py_in ''is_active'' (JObj [(''status'', JStr ''ok'')]) \<noteq> Inr True
   \<and> is_active ((streaming 0)\<lparr>frame_count := 2\<rparr>) = is_active (streaming 0)"
proof -
  have u: "upload_frame (streaming 0) 1 (Response 200 (Inr (JObj [(''status'', JStr ''ok'')]))) None
           = ([HttpPost], (streaming 0)\<lparr>frame_count := 2\<rparr>, None)"
    by (simp add: upload_frame_def upload_try_def revoked_def streaming_def)
  have m: "py_in ''is_active'' (JObj [(''status'', JStr ''ok'')]) \<noteq> Inr True"
    by simp
  from upload_without_is_active [OF u m] u m show ?thesis
    by simp
qed




text \<open>
  C6. When the upload raises a transport error (a \<^verbatim>\<open>RequestException\<close>: timeout or
  connection error), the iteration logs the error and sleeps one second, leaves
  \<open>is_active\<close> and every other variable but \<open>last_frame_time\<close> as they were, and
  the loop goes on: nothing propagates unless that one-second sleep is itself
  interrupted.
\<close>

theorem upload_transport_error:
  assumes "is_active s"
      and "\<not> time_now env - last_frame_time s < fi"
      and "capture_outcome env = None"
      and "encode_outcome env = None"
      and "post_outcome env = Raised e"
      and "is_RequestException e"
  shows "frame_stage fi s env =
           ([CaptureFrame, EncodeFrame, HttpPost, Log ERROR MsgConnError, Sleep 1],
            (if sleep_outcome env = None then s\<lparr>last_frame_time := time_now env\<rparr> else s),
            sleep_outcome env)"
  using assms upload_frame_raised [OF assms(6)]
  by (cases "sleep_outcome env") (simp_all add: frame_stage_def)

theorem upload_transport_error_witness:
  "is_active (streaming 0)
   \<and> \<not> time_now ((calm_env 1)\<lparr>post_outcome := Raised ConnectionError\<rparr>)
         - last_frame_time (streaming 0) < 1/12
   \<and> frame_stage (1/12) (streaming 0) ((calm_env 1)\<lparr>post_outcome := Raised ConnectionError\<rparr>)
     = ([CaptureFrame, EncodeFrame, HttpPost, Log ERROR MsgConnError, Sleep 1],
        (streaming 0)\<lparr>last_frame_time := 1\<rparr>, None)
   \<and> is_active ((streaming 0)\<lparr>last_frame_time := 1\<rparr>)"
proof -
  let ?env = "(calm_env 1)\<lparr>post_outcome := Raised ConnectionError\<rparr>"
  have a: "is_active (streaming 0)" by (simp add: streaming_def)
  have b: "\<not> time_now ?env - last_frame_time (streaming 0) < 1/12"
    by (simp add: calm_env_def streaming_def)
  have c: "capture_outcome ?env = None" "encode_outcome ?env = None"
    "post_outcome ?env = Raised ConnectionError" "sleep_outcome ?env = None" "time_now ?env = 1"
    by (simp_all add: calm_env_def)
  have d: "is_RequestException ConnectionError" by simp
  from upload_transport_error [OF a b c(1) c(2) c(3) d] a b c(4) c(5) show ?thesis
    by (simp add: streaming_def)
qed

text \<open>
  C5. A frame is captured only in an iteration whose \<open>current_time\<close> lies at least
  \<open>frame_interval\<close> after \<open>last_frame_time\<close>, and an iteration that captured and
  did not raise ends with \<open>last_frame_time\<close> set to its \<open>current_time\<close>, whatever
  the upload answered. So along any run of the loop, the \<open>current_time\<close>s of the
  capturing iterations, with the \<open>last_frame_time\<close> of the start in front of them,
  are each at least \<open>frame_interval\<close> after the one before. (Times are exact
  rationals here; the rounding of Python's float subtraction is not modelled.)
\<close>

theorem capture_spacing:
  "(run_loop cid fi s envs = (tr, s', x) \<longrightarrow>
      successively (\<lambda>a b. fi \<le> b - a) (last_frame_time s # capture_times tr))
   \<and> (iteration cid fi s env = (ev, s1, x1) \<and> CaptureFrame \<in> set ev \<longrightarrow>
        fi \<le> time_now env - last_frame_time s
        \<and> (x1 = None \<longrightarrow> last_frame_time s1 = time_now env))"
  using run_loop_spacing [of cid fi s envs tr s' x] iteration_capture [of cid fi s env ev s1 x1]
  by blast

theorem capture_spacing_witness:
  "run_loop ''camera_0'' (1/12) (streaming 0)
       [calm_env (1/24), calm_env (1/8), (calm_env (1/4))\<lparr>post_outcome := Raised Timeout\<rparr>,
        calm_env (7/24), calm_env (1/3)]
     = ([(1/24, [Sleep (1/1000)]),
         (1/8, [CaptureFrame, EncodeFrame, HttpPost]),
         (1/4, [CaptureFrame, EncodeFrame, HttpPost, Log ERROR MsgConnError, Sleep 1]),
         (7/24, [Sleep (1/1000)]),
         (1/3, [CaptureFrame, EncodeFrame, HttpPost])],
        (streaming 0)\<lparr>frame_count := 3, last_frame_time := 1/3\<rparr>, None)
   \<and> capture_times
        [(1/24, [Sleep (1/1000)]),
         (1/8, [CaptureFrame, EncodeFrame, HttpPost]),
         (1/4, [CaptureFrame, EncodeFrame, HttpPost, Log ERROR MsgConnError, Sleep 1]),
         (7/24, [Sleep (1/1000)]),
         (1/3, [CaptureFrame, EncodeFrame, HttpPost])] = [1/8, 1/4, 1/3]
   \<and> successively (\<lambda>a b. (1/12 :: rat) \<le> b - a) [0, 1/8, 1/4, 1/3]"
proof -
  let ?tr = "[(1/24, [Sleep (1/1000)]),
         (1/8, [CaptureFrame, EncodeFrame, HttpPost]),
         (1/4, [CaptureFrame, EncodeFrame, HttpPost, Log ERROR MsgConnError, Sleep 1]),
         (7/24, [Sleep (1/1000)]),
         (1/3, [CaptureFrame, EncodeFrame, HttpPost])] :: (rat \<times> event list) list"
  have r: "run_loop ''camera_0'' (1/12) (streaming 0)
       [calm_env (1/24), calm_env (1/8), (calm_env (1/4))\<lparr>post_outcome := Raised Timeout\<rparr>,
        calm_env (7/24), calm_env (1/3)]
     = (?tr, (streaming 0)\<lparr>frame_count := 3, last_frame_time := 1/3\<rparr>, None)"
    by (simp add: iteration_def poll_stage_def frame_stage_def upload_frame_def upload_try_def
        revoked_def calm_env_def streaming_def)
  have c: "capture_times ?tr = [1/8, 1/4, 1/3]"
    by (simp add: capture_times_def)
  have l: "last_frame_time (streaming 0) = 0"
    by (simp add: streaming_def)
  from capture_spacing [of "''camera_0''" "1/12" "streaming 0" _ ?tr _ None] r c l
  show ?thesis by simp
qed

text \<open>
  C8. Whenever an exception leaves the body of the outer \<^verbatim>\<open>try\<close> after
  \<^verbatim>\<open>Picamera2()\<close> returned, \<^verbatim>\<open>main\<close> does not go on running: it runs the
  handler that matches (the interrupt log for \<^verbatim>\<open>KeyboardInterrupt\<close>, the error log
  for an \<^verbatim>\<open>Exception\<close>, none for any other exception), then stops the camera and
  logs the shutdown message, these two being the last things it does, and the camera
  is stopped only that once. An exception leaves the body of the \<^verbatim>\<open>try\<close> when the
  camera set-up raises, when the two seconds of sleep are interrupted, when
  \<open>fps\<close> is zero, and when an iteration of the loop raises: the loop ends with the
  first iteration that does.
\<close>

theorem camera_released_on_exit:
  assumes "camera_ctor ienv = None"
  shows "(try_body cfg ienv envs = (ev1, hp, Some e) \<longrightarrow>
            main cfg ienv envs =
              ([Log INFO MsgServerUrl, Log INFO MsgSettings, Log INFO MsgCameraId] @ ev1 @
               (if e = KeyboardInterrupt then [Log INFO MsgInterrupted]
                else if is_Exception e then [Log ERROR MsgError] else []) @
               [CameraStop, Log INFO MsgExit],
               if e = KeyboardInterrupt \<or> is_Exception e then Returned else Propagated e)
            \<and> CameraStop \<notin> set ev1)
       \<and> (camera_setup ienv = Some e \<longrightarrow> snd (snd (try_body cfg ienv envs)) = Some e)
       \<and> (camera_setup ienv = None \<and> settle_sleep ienv = Some e \<longrightarrow>
            snd (snd (try_body cfg ienv envs)) = Some e)
       \<and> (camera_setup ienv = None \<and> settle_sleep ienv = None \<and> fps cfg = 0 \<longrightarrow>
            snd (snd (try_body cfg ienv envs)) = Some ZeroDivisionError)
       \<and> (camera_setup ienv = None \<and> settle_sleep ienv = None \<and> fps cfg \<noteq> 0 \<longrightarrow>
            snd (snd (try_body cfg ienv envs)) =
            snd (snd (run_loop (camera_id cfg) (1 / of_int (fps cfg))
                        (init_state (clock_frame ienv) (clock_status ienv)) envs)))
       \<and> (snd (snd (iteration cid fi s env)) = Some e \<longrightarrow>
            snd (snd (run_loop cid fi s (env # rest))) = Some e)
       \<and> (snd (snd (iteration cid fi s env)) = None \<longrightarrow>
            snd (snd (run_loop cid fi s (env # rest))) =
            snd (snd (run_loop cid fi (fst (snd (iteration cid fi s env))) rest)))"
proof -
  have m: "main cfg ienv envs =
              ([Log INFO MsgServerUrl, Log INFO MsgSettings, Log INFO MsgCameraId] @ ev1 @
               (if e = KeyboardInterrupt then [Log INFO MsgInterrupted]
                else if is_Exception e then [Log ERROR MsgError] else []) @
               [CameraStop, Log INFO MsgExit],
               if e = KeyboardInterrupt \<or> is_Exception e then Returned else Propagated e)
            \<and> CameraStop \<notin> set ev1"
    if t: "try_body cfg ienv envs = (ev1, hp, Some e)"
  proof -
    from try_body_picam [OF t] assms have "hp" and "CameraStop \<notin> set ev1" by simp_all
    with t show ?thesis by (simp add: main_def Let_def)
  qed
  have t1: "snd (snd (try_body cfg ienv envs)) = Some e" if "camera_setup ienv = Some e"
    using that assms by (simp add: try_body_def)
  have t2: "snd (snd (try_body cfg ienv envs)) = Some e"
    if "camera_setup ienv = None \<and> settle_sleep ienv = Some e"
    using that assms by (simp add: try_body_def)
  have t3: "snd (snd (try_body cfg ienv envs)) = Some ZeroDivisionError"
    if "camera_setup ienv = None \<and> settle_sleep ienv = None \<and> fps cfg = 0"
    using that assms by (simp add: try_body_def)
  have t4: "snd (snd (try_body cfg ienv envs)) =
            snd (snd (run_loop (camera_id cfg) (1 / of_int (fps cfg))
                        (init_state (clock_frame ienv) (clock_status ienv)) envs))"
    if "camera_setup ienv = None \<and> settle_sleep ienv = None \<and> fps cfg \<noteq> 0"
    using that assms by (simp add: try_body_def Let_def split: prod.splits)
  have r1: "snd (snd (run_loop cid fi s (env # rest))) = Some e"
    if "snd (snd (iteration cid fi s env)) = Some e"
    using that by (cases "iteration cid fi s env") simp
  have r2: "snd (snd (run_loop cid fi s (env # rest))) =
            snd (snd (run_loop cid fi (fst (snd (iteration cid fi s env))) rest))"
    if "snd (snd (iteration cid fi s env)) = None"
    using that by (cases "iteration cid fi s env") (simp split: prod.splits)
  from m t1 t2 t3 t4 r1 r2 show ?thesis by blast
qed

theorem camera_released_on_exit_witness:
  "camera_ctor calm_start = None
   \<and> try_body default_config calm_start
       [calm_env 1, (calm_env 2)\<lparr>sleep_outcome := Some KeyboardInterrupt\<rparr>]
     = ([CameraOpen, CameraStart, Log INFO MsgCameraReady, Sleep 2, Log INFO MsgStreamStart,
         HttpGet, Log INFO MsgActivated, CaptureFrame, EncodeFrame, HttpPost,
         CaptureFrame, EncodeFrame, HttpPost],
        True, None)
   \<and> try_body default_config calm_start
       [calm_env 1, (calm_env (49/48))\<lparr>sleep_outcome := Some KeyboardInterrupt\<rparr>]
     = ([CameraOpen, CameraStart, Log INFO MsgCameraReady, Sleep 2, Log INFO MsgStreamStart,
         HttpGet, Log INFO MsgActivated, CaptureFrame, EncodeFrame, HttpPost,
         Sleep (1/1000)],
        True, Some KeyboardInterrupt)
   \<and> main default_config calm_start
       [calm_env 1, (calm_env (49/48))\<lparr>sleep_outcome := Some KeyboardInterrupt\<rparr>]
     = ([Log INFO MsgServerUrl, Log INFO MsgSettings, Log INFO MsgCameraId,
         CameraOpen, CameraStart, Log INFO MsgCameraReady, Sleep 2, Log INFO MsgStreamStart,
         HttpGet, Log INFO MsgActivated, CaptureFrame, EncodeFrame, HttpPost,
         Sleep (1/1000), Log INFO MsgInterrupted, CameraStop, Log INFO MsgExit],
        Returned)"
proof -
  have c: "camera_ctor calm_start = None" by (simp add: calm_start_def)
  have t0: "try_body default_config calm_start
       [calm_env 1, (calm_env 2)\<lparr>sleep_outcome := Some KeyboardInterrupt\<rparr>]
     = ([CameraOpen, CameraStart, Log INFO MsgCameraReady, Sleep 2, Log INFO MsgStreamStart,
         HttpGet, Log INFO MsgActivated, CaptureFrame, EncodeFrame, HttpPost,
         CaptureFrame, EncodeFrame, HttpPost],
        True, None)"
    by (simp add: try_body_def iteration_def poll_stage_def status_check_def
        status_try_def frame_stage_def upload_frame_def upload_try_def revoked_def
        default_config_def calm_start_def calm_env_def init_state_def)
  have t: "try_body default_config calm_start
       [calm_env 1, (calm_env (49/48))\<lparr>sleep_outcome := Some KeyboardInterrupt\<rparr>]
     = ([CameraOpen, CameraStart, Log INFO MsgCameraReady, Sleep 2, Log INFO MsgStreamStart,
         HttpGet, Log INFO MsgActivated, CaptureFrame, EncodeFrame, HttpPost,
         Sleep (1/1000)],
        True, Some KeyboardInterrupt)"
    by (simp add: try_body_def iteration_def poll_stage_def status_check_def
        status_try_def frame_stage_def upload_frame_def upload_try_def revoked_def
        default_config_def calm_start_def calm_env_def init_state_def)
  from camera_released_on_exit [OF c, of default_config
      "[calm_env 1, (calm_env (49/48))\<lparr>sleep_outcome := Some KeyboardInterrupt\<rparr>]"
      "[CameraOpen, CameraStart, Log INFO MsgCameraReady, Sleep 2, Log INFO MsgStreamStart,
         HttpGet, Log INFO MsgActivated, CaptureFrame, EncodeFrame, HttpPost,
         Sleep (1/1000)]" True KeyboardInterrupt] c t0 t
  show ?thesis by simp
qed

text \<open>
  C10. The upload path never sets \<open>is_active\<close>: an upload answered with HTTP 200 and
  a JSON object whose \<open>is_active\<close> field is true (or any value Python counts as true)
  leaves \<open>is_active\<close> as it was, and no upload outcome at all turns a false
  \<open>is_active\<close> into a true one. An iteration that starts with \<open>is_active\<close> false and
  ends with it true has made a status poll that was answered with HTTP 200 and a JSON
  object whose \<open>current_source\<close> is the string \<open>camera_id\<close>.
\<close>

theorem only_poll_activates:
  "(upload_frame s el (Response 200 (Inr (JObj kvs))) sl = (ev, s', x)
      \<and> map_of kvs ''is_active'' = Some v \<and> py_truthy v \<longrightarrow> is_active s' = is_active s)
   \<and> (upload_frame s el post sl = (ev2, s2, x2) \<and> is_active s2 \<longrightarrow> is_active s)
   \<and> (iteration cid fi s env = (ev3, s3, x3) \<and> \<not> is_active s \<and> is_active s3 \<longrightarrow>
        status_check_interval s \<le> time_now env - last_status_check s
        \<and> (\<exists>kvs. get_outcome env = Response 200 (Inr (JObj kvs))
                 \<and> map_of kvs ''current_source'' = Some (JStr cid)))"
proof -
  have a: "is_active s' = is_active s"
    if h: "upload_frame s el (Response 200 (Inr (JObj kvs))) sl = (ev, s', x)
           \<and> map_of kvs ''is_active'' = Some v \<and> py_truthy v"
  proof -
    from h have u: "upload_frame s el (Response 200 (Inr (JObj kvs))) sl = (ev, s', x)"
      and m: "map_of kvs ''is_active'' = Some v" and t: "py_truthy v" by simp_all
    from revoked_obj [OF m] t have "revoked (JObj kvs) \<noteq> Inr True" by simp
    with upload_frame_200 [OF u] show ?thesis by simp
  qed
  have b: "is_active s" if "upload_frame s el post sl = (ev2, s2, x2) \<and> is_active s2"
    using that upload_frame_keeps [of s el post sl ev2 s2 x2] by simp
  have c: "status_check_interval s \<le> time_now env - last_status_check s
        \<and> (\<exists>kvs. get_outcome env = Response 200 (Inr (JObj kvs))
                 \<and> map_of kvs ''current_source'' = Some (JStr cid))"
    if h: "iteration cid fi s env = (ev3, s3, x3) \<and> \<not> is_active s \<and> is_active s3"
  proof -
    from h have i: "iteration cid fi s env = (ev3, s3, x3)"
      and n: "\<not> is_active s" and y: "is_active s3" by simp_all
    have "\<exists>evp sp xp. poll_stage cid s env = (evp, sp, xp) \<and> is_active sp"
      using i
    proof (cases rule: iteration_split)
      case (poll_raised e)
      with y show ?thesis by blast
    next
      case (poll_done ev1 s1 ev2)
      from frame_stage_timers [OF poll_done(2)] y have "is_active s1" by simp
      with poll_done(1) show ?thesis by blast
    qed
    then obtain evp sp xp where p: "poll_stage cid s env = (evp, sp, xp)" and ap: "is_active sp"
      by blast
    from p ap n have due: "status_check_interval s \<le> time_now env - last_status_check s"
      by (auto simp: poll_stage_def split: if_splits)
    with p have sc: "status_check cid s (time_now env) (get_outcome env) = (evp, sp, xp)"
      by (simp add: poll_stage_def)
    obtain ev0 s0 x0 where st: "status_try cid s (time_now env) (get_outcome env) = (ev0, s0, x0)"
      by (cases "status_try cid s (time_now env) (get_outcome env)") auto
    from status_check_is_active [OF sc st] ap have "is_active s0" by simp
    from status_try_activates [OF st n this] due show ?thesis by simp
  qed
  from a b c show ?thesis by blast
qed

theorem only_poll_activates_witness:
  "upload_frame (init_state 0 0) 1 (Response 200 (Inr (JObj [(''is_active'', JBool True)]))) None
     = ([HttpPost], (init_state 0 0)\<lparr>frame_count := 1\<rparr>, None)
   \<and> \<not> is_active ((init_state 0 0)\<lparr>frame_count := 1\<rparr>)
   \<and> iteration ''camera_0'' (1/12) (init_state 0 0) (calm_env 1)
     = ([HttpGet, Log INFO MsgActivated, CaptureFrame, EncodeFrame, HttpPost],
        (init_state 0 0)\<lparr>is_active := True, last_status_check := 1, status_check_interval := 3,
                         frame_count := 1, last_frame_time := 1\<rparr>, None)
   \<and> status_check_interval (init_state 0 0) \<le> time_now (calm_env 1) - last_status_check (init_state 0 0)
   \<and> (\<exists>kvs. get_outcome (calm_env 1) = Response 200 (Inr (JObj kvs))
            \<and> map_of kvs ''current_source'' = Some (JStr ''camera_0''))"
proof -
  have u: "upload_frame (init_state 0 0) 1
             (Response 200 (Inr (JObj [(''is_active'', JBool True)]))) None
           = ([HttpPost], (init_state 0 0)\<lparr>frame_count := 1\<rparr>, None)"
    by (simp add: upload_frame_def upload_try_def revoked_def init_state_def)
  have i: "iteration ''camera_0'' (1/12) (init_state 0 0) (calm_env 1)
     = ([HttpGet, Log INFO MsgActivated, CaptureFrame, EncodeFrame, HttpPost],
        (init_state 0 0)\<lparr>is_active := True, last_status_check := 1, status_check_interval := 3,
                         frame_count := 1, last_frame_time := 1\<rparr>, None)"
    by (simp add: iteration_def poll_stage_def status_check_def status_try_def frame_stage_def
        upload_frame_def upload_try_def revoked_def calm_env_def init_state_def)
  have n: "\<not> is_active (init_state 0 0)" by (simp add: init_state_def)
  from only_poll_activates [of "init_state 0 0" 1 "[(''is_active'', JBool True)]" None
      "[HttpPost]" "(init_state 0 0)\<lparr>frame_count := 1\<rparr>" None "JBool True"
      "Raised Timeout" "[]" "init_state 0 0" None "''camera_0''" "1/12" "calm_env 1"
      "[HttpGet, Log INFO MsgActivated, CaptureFrame, EncodeFrame, HttpPost]"
      "(init_state 0 0)\<lparr>is_active := True, last_status_check := 1, status_check_interval := 3,
                         frame_count := 1, last_frame_time := 1\<rparr>" None]
    u i n
  show ?thesis by (simp add: init_state_def)
qed

end
